theory Spec2Isabelle
  imports Main
begin

section \<open>The Guide component of packages/components/src/guide/index.js\<close>

text \<open>
  \<^verbatim>\<open>Guide\<close> is a React function component. One call of the function is one render: it
  reads the hook state \<^verbatim>\<open>currentPage\<close> (\<^verbatim>\<open>useState( 0 )\<close>), computes
  \<^verbatim>\<open>numberOfPages\<close>, \<^verbatim>\<open>canGoBack\<close>, \<^verbatim>\<open>canGoForward\<close>, builds the closures
  \<^verbatim>\<open>goBack\<close> and \<^verbatim>\<open>goForward\<close> over those values, and returns either \<^verbatim>\<open>null\<close> or a
  tree of elements that carries the closures as event handlers.

  The page numbers are JavaScript numbers. Every value that the component computes is an
  integer obtained from \<^verbatim>\<open>0\<close> by adding or subtracting \<^verbatim>\<open>1\<close>, or an argument of the
  state setter, so they are modelled as \<open>int\<close>.
\<close>

subsection \<open>JavaScript values of the optional text prop\<close>

datatype js_value =
    JUndefined
  | JNull
  | JBool bool
  | JNumber int
  | JNaN
  | JString string

text \<open>JavaScript's \<^verbatim>\<open>ToBoolean\<close>: the falsy values are \<^verbatim>\<open>undefined\<close>, \<^verbatim>\<open>null\<close>,
  \<^verbatim>\<open>false\<close>, \<^verbatim>\<open>0\<close>, \<^verbatim>\<open>NaN\<close> and the empty string.\<close>

fun truthy :: "js_value \<Rightarrow> bool" where
  "truthy JUndefined = False"
| "truthy JNull = False"
| "truthy (JBool b) = b"
| "truthy (JNumber n) = (n \<noteq> 0)"
| "truthy JNaN = False"
| "truthy (JString s) = (s \<noteq> [])"

text \<open>\<^verbatim>\<open>a || b\<close> is \<^verbatim>\<open>a\<close> when \<^verbatim>\<open>a\<close> is truthy and \<^verbatim>\<open>b\<close> otherwise.\<close>

definition js_or :: "js_value \<Rightarrow> js_value \<Rightarrow> js_value" where
  "js_or a b = (if truthy a then a else b)"

subsection \<open>State, props and handlers\<close>

text \<open>
  The state that events act on: the hook state of the component and, beside it, whatever
  the caller's \<^verbatim>\<open>onFinish\<close> callback acts on (\<open>world\<close>). The callback is a function of the
  caller; it has no access to the setter of the hook state.
\<close>

record 'w guide_state =
  page :: int
  world :: 'w

type_synonym 'w handler = "'w guide_state \<Rightarrow> 'w guide_state"

text \<open>The props destructured in the function head,
  \<^verbatim>\<open>{ children, className, finishButtonText, onFinish }\<close>. The children are a flat array of
  opaque pages.\<close>

record ('c, 'w) props =
  children :: "'c list"
  className :: "string option"
  finishButtonText :: js_value
  onFinish :: "'w \<Rightarrow> 'w"

text \<open>\<^verbatim>\<open>const [ currentPage, setCurrentPage ] = useState( 0 )\<close>: the initial hook state
  and the setter, which stores its argument as it is.\<close>

definition useState_initial :: "'w \<Rightarrow> 'w guide_state" where
  "useState_initial w = \<lparr>page = 0, world = w\<rparr>"

definition setCurrentPage :: "int \<Rightarrow> 'w handler" where
  "setCurrentPage v s = s\<lparr>page := v\<rparr>"

text \<open>Running a function of the caller: it acts on the world once and leaves the hook
  state alone.\<close>

definition callback :: "('w \<Rightarrow> 'w) \<Rightarrow> 'w handler" where
  "callback f s = s\<lparr>world := f (world s)\<rparr>"

text \<open>\<^verbatim>\<open>Children.count( children )\<close> on a flat array.\<close>

definition Children_count :: "'c list \<Rightarrow> int" where
  "Children_count cs = int (length cs)"

text \<open>\<^verbatim>\<open>children[ currentPage ]\<close>: \<^verbatim>\<open>undefined\<close> outside the array.\<close>

definition child_at :: "'c list \<Rightarrow> int \<Rightarrow> 'c option" where
  "child_at cs i = (if 0 \<le> i \<and> i < int (length cs) then Some (cs ! nat i) else None)"

subsection \<open>The body of Guide\<close>

text \<open>\<^verbatim>\<open>const canGoBack = currentPage > 0;\<close>\<close>

definition canGoBack :: "int \<Rightarrow> bool" where
  "canGoBack currentPage \<longleftrightarrow> currentPage > 0"

text \<open>\<^verbatim>\<open>const canGoForward = currentPage < numberOfPages - 1;\<close>\<close>

definition canGoForward :: "int \<Rightarrow> int \<Rightarrow> bool" where
  "canGoForward numberOfPages currentPage \<longleftrightarrow> currentPage < numberOfPages - 1"

text \<open>The closures of one render. They use the \<^verbatim>\<open>currentPage\<close> of the render that
  built them.
  \<^verbatim>\<open>const goBack = () => { if ( canGoBack ) { setCurrentPage( currentPage - 1 ); } };\<close>
  \<^verbatim>\<open>const goForward = () => { if ( canGoForward ) { setCurrentPage( currentPage + 1 ); } };\<close>\<close>

definition goBack :: "int \<Rightarrow> 'w handler" where
  "goBack currentPage s =
     (if canGoBack currentPage then setCurrentPage (currentPage - 1) s else s)"

definition goForward :: "int \<Rightarrow> int \<Rightarrow> 'w handler" where
  "goForward numberOfPages currentPage s =
     (if canGoForward numberOfPages currentPage then setCurrentPage (currentPage + 1) s
      else s)"

subsection \<open>The rendered tree\<close>

text \<open>The icons of \<^verbatim>\<open>./icons\<close>, by name.\<close>

datatype icon = BackButtonIcon | ForwardButtonIcon

text \<open>
  The elements that the JSX of \<^verbatim>\<open>Guide\<close> builds, each with the props it is given there:
  \<^item> \<^verbatim>\<open>Modal\<close>: \<^verbatim>\<open>className\<close>, \<^verbatim>\<open>onRequestClose\<close>, children;
  \<^item> \<^verbatim>\<open>KeyboardShortcuts\<close>: \<^verbatim>\<open>key\<close>, and the handlers of \<^verbatim>\<open>left\<close> and \<^verbatim>\<open>right\<close>;
  \<^item> \<^verbatim>\<open>div\<close>: \<^verbatim>\<open>className\<close>, children;
  \<^item> the page, \<^verbatim>\<open>children[ currentPage ]\<close>;
  \<^item> \<^verbatim>\<open>FinishButton\<close>: \<^verbatim>\<open>className\<close>, \<^verbatim>\<open>onClick\<close>, and its child, the label;
  \<^item> \<^verbatim>\<open>IconButton\<close>: \<^verbatim>\<open>className\<close>, \<^verbatim>\<open>icon\<close>, \<^verbatim>\<open>onClick\<close>, and its child, the label;
  \<^item> \<^verbatim>\<open>PageControl\<close>: \<^verbatim>\<open>currentPage\<close>, \<^verbatim>\<open>numberOfPages\<close>, \<^verbatim>\<open>setCurrentPage\<close>;
  \<^item> \<^verbatim>\<open>false\<close>, the value of \<^verbatim>\<open>cond && ...\<close> when \<^verbatim>\<open>cond\<close> is false; React renders
    nothing for it.
\<close>

datatype ('c, 'w) element =
    Modal string "'w handler" "('c, 'w) element list"
  | KeyboardShortcuts int "'w handler" "'w handler"
  | Div string "('c, 'w) element list"
  | Page "'c option"
  | FinishButton string "'w handler" js_value
  | IconButton string icon "'w handler" string
  | PageControl int int "int \<Rightarrow> 'w handler"
  | JFalse

text \<open>\<^verbatim>\<open>cond && element\<close> for a boolean \<^verbatim>\<open>cond\<close>.\<close>

definition js_and :: "bool \<Rightarrow> ('c, 'w) element \<Rightarrow> ('c, 'w) element" where
  "js_and cond e = (if cond then e else JFalse)"

text \<open>\<^verbatim>\<open>classnames( 'components-guide', className )\<close>: the truthy arguments, joined by a
  space.\<close>

definition classnames :: "string \<Rightarrow> string option \<Rightarrow> string" where
  "classnames base extra =
     (case extra of None \<Rightarrow> base
      | Some c \<Rightarrow> if c = [] then base else base @ '' '' @ c)"

text \<open>
  One render. \<open>i18n\<close> is the localisation function \<^verbatim>\<open>__\<close> of \<^verbatim>\<open>@wordpress/i18n\<close>, and
  \<open>currentPage\<close> is the hook state at this render. \<open>None\<close> is \<^verbatim>\<open>return null\<close>.
\<close>

definition Guide ::
  "(string \<Rightarrow> string) \<Rightarrow> ('c, 'w) props \<Rightarrow> int \<Rightarrow> ('c, 'w) element option" where
  "Guide i18n props currentPage =
     (let numberOfPages = Children_count (children props) in
      if numberOfPages = 0 then None
      else Some
        (Modal (classnames ''components-guide'' (className props))
           (callback (onFinish props))
           [KeyboardShortcuts currentPage
              (goBack currentPage) (goForward numberOfPages currentPage),
            Div ''components-guide__container''
              [Page (child_at (children props) currentPage),
               js_and (\<not> canGoForward numberOfPages currentPage)
                 (FinishButton ''components-guide__inline-finish-button''
                    (callback (onFinish props))
                    (js_or (finishButtonText props) (JString (i18n ''Finish'')))),
               Div ''components-guide__footer''
                 [js_and (canGoBack currentPage)
                    (IconButton ''components-guide__back-button'' BackButtonIcon
                       (goBack currentPage) (i18n ''Previous'')),
                  PageControl currentPage numberOfPages setCurrentPage,
                  js_and (canGoForward numberOfPages currentPage)
                    (IconButton ''components-guide__forward-button'' ForwardButtonIcon
                       (goForward numberOfPages currentPage) (i18n ''Next'')),
                  js_and (\<not> canGoForward numberOfPages currentPage)
                    (FinishButton ''components-guide__finish-button''
                       (callback (onFinish props))
                       (js_or (finishButtonText props) (JString (i18n ''Finish''))))]]]))"

subsection \<open>Reading a rendered tree\<close>

text \<open>Every element of a tree, in document order.\<close>

fun elements :: "('c, 'w) element \<Rightarrow> ('c, 'w) element list" where
  "elements (Modal c h es) = Modal c h es # concat (map elements es)"
| "elements (Div c es) = Div c es # concat (map elements es)"
| "elements e = [e]"

text \<open>The class names of the \<^verbatim>\<open>IconButton\<close>s and of the \<^verbatim>\<open>FinishButton\<close>s of a
  tree, and the labels and click handlers of its \<^verbatim>\<open>FinishButton\<close>s.\<close>

fun icon_button_class :: "('c, 'w) element \<Rightarrow> string option" where
  "icon_button_class (IconButton c i h l) = Some c"
| "icon_button_class e = None"

fun finish_button_class :: "('c, 'w) element \<Rightarrow> string option" where
  "finish_button_class (FinishButton c h l) = Some c"
| "finish_button_class e = None"

fun finish_button_label :: "('c, 'w) element \<Rightarrow> js_value option" where
  "finish_button_label (FinishButton c h l) = Some l"
| "finish_button_label e = None"

fun finish_button_onClick :: "('c, 'w) element \<Rightarrow> 'w handler option" where
  "finish_button_onClick (FinishButton c h l) = Some h"
| "finish_button_onClick e = None"

definition icon_buttons :: "('c, 'w) element \<Rightarrow> string list" where
  "icon_buttons v = List.map_filter icon_button_class (elements v)"

definition finish_buttons :: "('c, 'w) element \<Rightarrow> string list" where
  "finish_buttons v = List.map_filter finish_button_class (elements v)"

definition finish_labels :: "('c, 'w) element \<Rightarrow> js_value list" where
  "finish_labels v = List.map_filter finish_button_label (elements v)"

definition finish_handlers :: "('c, 'w) element \<Rightarrow> 'w handler list" where
  "finish_handlers v = List.map_filter finish_button_onClick (elements v)"

text \<open>The \<^verbatim>\<open>onRequestClose\<close> of a \<^verbatim>\<open>Modal\<close>.\<close>

fun onRequestClose :: "('c, 'w) element \<Rightarrow> 'w handler option" where
  "onRequestClose (Modal c h es) = Some h"
| "onRequestClose e = None"

text \<open>The controls of the rendered view, by the class names the source gives them.\<close>

definition has_back_control :: "('c, 'w) element \<Rightarrow> bool" where
  "has_back_control v \<longleftrightarrow> ''components-guide__back-button'' \<in> set (icon_buttons v)"

definition has_forward_control :: "('c, 'w) element \<Rightarrow> bool" where
  "has_forward_control v \<longleftrightarrow> ''components-guide__forward-button'' \<in> set (icon_buttons v)"

definition has_finish_control :: "('c, 'w) element \<Rightarrow> bool" where
  "has_finish_control v \<longleftrightarrow> finish_buttons v \<noteq> []"

subsection \<open>The actions\<close>

text \<open>
  The component handles one event at a time and renders again after each state change,
  so an action runs the closure of the render at the current hook state:
  \<^verbatim>\<open>goBack\<close> and \<^verbatim>\<open>goForward\<close> (the \<^verbatim>\<open>left\<close> and \<^verbatim>\<open>right\<close> shortcuts and the two icon
  buttons), \<^verbatim>\<open>setCurrentPage( j )\<close> (handed to \<^verbatim>\<open>PageControl\<close>) and \<^verbatim>\<open>onFinish\<close>
  (\<^verbatim>\<open>onRequestClose\<close> of the modal and \<^verbatim>\<open>onClick\<close> of the finish buttons).
\<close>

datatype action = Back | Forward | JumpTo int | Finish

fun step :: "('c, 'w) props \<Rightarrow> action \<Rightarrow> 'w handler" where
  "step props Back s = goBack (page s) s"
| "step props Forward s = goForward (Children_count (children props)) (page s) s"
| "step props (JumpTo j) s = setCurrentPage j s"
| "step props Finish s = callback (onFinish props) s"

text \<open>The states after each action of a sequence, in order.\<close>

fun states_after :: "('c, 'w) props \<Rightarrow> action list \<Rightarrow> 'w guide_state \<Rightarrow> 'w guide_state list" where
  "states_after props [] s = []"
| "states_after props (a # as) s = step props a s # states_after props as (step props a s)"

definition is_navigation :: "action \<Rightarrow> bool" where
  "is_navigation a \<longleftrightarrow> a = Back \<or> a = Forward"

text \<open>The hook state is a valid index into the children.\<close>

definition in_range :: "('c, 'w) props \<Rightarrow> 'w guide_state \<Rightarrow> bool" where
  "in_range props s \<longleftrightarrow> 0 \<le> page s \<and> page s \<le> Children_count (children props) - 1"

subsection \<open>Concrete guides\<close>

text \<open>Two guides to evaluate the definitions on. Their world is a counter and their
  \<^verbatim>\<open>onFinish\<close> increments it, so the world after a run is the number of times that
  \<^verbatim>\<open>onFinish\<close> was called.\<close>

definition three_pages :: "(string, nat) props" where
  "three_pages =
     \<lparr>children = [''one'', ''two'', ''three''], className = None,
      finishButtonText = JUndefined, onFinish = Suc\<rparr>"

definition one_page_empty_text :: "(string, nat) props" where
  "one_page_empty_text =
     \<lparr>children = [''only''], className = Some ''welcome'',
      finishButtonText = JString [], onFinish = Suc\<rparr>"

subsection \<open>The navigation state machine\<close>

lemma in_range_initial:
  "0 < Children_count (children props) \<Longrightarrow> in_range props (useState_initial w)"
  by (simp add: in_range_def useState_initial_def)

lemma in_range_step:
  "in_range props s \<Longrightarrow> is_navigation a \<Longrightarrow> in_range props (step props a s)"
  by (auto simp: in_range_def is_navigation_def goBack_def goForward_def canGoBack_def
      canGoForward_def setCurrentPage_def)

lemma in_range_states_after:
  "in_range props s \<Longrightarrow> \<forall>a \<in> set acts. is_navigation a \<Longrightarrow>
   \<forall>t \<in> set (states_after props acts s). in_range props t"
proof (induction acts arbitrary: s)
  case Nil
  then show ?case by simp
next
  case (Cons a acts)
  from Cons.prems have nxt: "in_range props (step props a s)"
    by (simp add: in_range_step)
  from Cons.prems have "\<forall>b \<in> set acts. is_navigation b" by simp
  with nxt have "\<forall>t \<in> set (states_after props acts (step props a s)). in_range props t"
    by (rule Cons.IH)
  with nxt show ?case by simp
qed

text \<open>
  C1. For every number of pages N > 0 and every sequence of goBack and goForward actions
  applied from the initial state (current index 0), the current index is within
  [0, N - 1] after each action.
\<close>

theorem currentPage_stays_in_range:
  assumes "0 < Children_count (children props)"
    and "\<forall>a \<in> set acts. is_navigation a"
  shows "\<forall>s \<in> set (states_after props acts (useState_initial w)).
           0 \<le> page s \<and> page s \<le> Children_count (children props) - 1"
proof -
  have "in_range props (useState_initial w)"
    using assms(1) by (rule in_range_initial)
  then have "\<forall>t \<in> set (states_after props acts (useState_initial w)). in_range props t"
    using assms(2) by (rule in_range_states_after)
  then show ?thesis by (simp add: in_range_def)
qed

theorem currentPage_stays_in_range_witness:
  "0 < Children_count (children three_pages)
   \<and> list_all is_navigation [Forward, Forward, Forward, Back]
   \<and> list_all (\<lambda>s. 0 \<le> page s \<and> page s \<le> Children_count (children three_pages) - 1)
         (states_after three_pages [Forward, Forward, Forward, Back] (useState_initial 0))"
proof -
  have n: "0 < Children_count (children three_pages)"
    by (simp add: Children_count_def three_pages_def)
  have a: "\<forall>a \<in> set [Forward, Forward, Forward, Back]. is_navigation a"
    by (simp add: is_navigation_def)
  from n a currentPage_stays_in_range [OF n a, of 0] show ?thesis
    unfolding list_all_iff by (intro conjI)
qed

text \<open>
  C2, as the spec states it: jumpTo(j) sets the current index to j when j is within
  [0, N - 1], and is a no-op when j is outside. The second half fails: the handler that
  \<^verbatim>\<open>Guide\<close> passes to the page control is the bare setter of the hook state, and with
  three pages a jump to 5 stores 5.
\<close>

theorem jumpTo_out_of_range_counterexample:
  "\<not> (0 \<le> (5::int) \<and> 5 \<le> Children_count (children three_pages) - 1)
   \<and> step three_pages (JumpTo 5) (useState_initial 0) \<noteq> useState_initial 0
   \<and> page (step three_pages (JumpTo 5) (useState_initial 0)) = 5"
  by (simp add: Children_count_def three_pages_def setCurrentPage_def useState_initial_def)

text \<open>
  C2, amended: jumpTo(j) sets the current index to j for every j, within [0, N - 1] or
  not, and changes nothing else; \<^verbatim>\<open>Guide\<close> has no range check on this path.
\<close>

theorem jumpTo_sets_page:
  "page (step props (JumpTo j) s) = j \<and> world (step props (JumpTo j) s) = world s"
  by (simp add: setCurrentPage_def)

text \<open>
  C3. goBack when the current index is 0, and goForward when it is N - 1, are ignored:
  the handlers have no failing branch, and the state after them is the state before.
\<close>

theorem goBack_goForward_at_ends_noop:
  "(page s = 0 \<longrightarrow> step props Back s = s)
   \<and> (page s = Children_count (children props) - 1 \<longrightarrow> step props Forward s = s)"
  by (simp add: goBack_def goForward_def canGoBack_def canGoForward_def)

theorem goBack_goForward_at_ends_noop_witness:
  "page (useState_initial 0 :: nat guide_state) = 0
   \<and> step three_pages Back (useState_initial 0) = useState_initial 0
   \<and> page (\<lparr>page = 2, world = 0\<rparr> :: nat guide_state) = Children_count (children three_pages) - 1
   \<and> step three_pages Forward \<lparr>page = 2, world = 0\<rparr> = \<lparr>page = 2, world = 0\<rparr>"
proof -
  have b: "page (useState_initial 0 :: nat guide_state) = 0"
    by (simp add: useState_initial_def)
  have f: "page (\<lparr>page = 2, world = 0\<rparr> :: nat guide_state)
             = Children_count (children three_pages) - 1"
    by (simp add: Children_count_def three_pages_def)
  from b f goBack_goForward_at_ends_noop [of "useState_initial 0" three_pages]
    goBack_goForward_at_ends_noop [of "\<lparr>page = 2, world = 0\<rparr>" three_pages]
  show ?thesis by blast
qed

text \<open>
  C4. For every number of pages N > 0 and every current index in [0, N - 1]:
  canGoBack is true exactly when the index is greater than 0 (it is false iff the index
  is 0), and canGoForward is true exactly when the index is less than N - 1 (it is false
  iff the index is N - 1).
\<close>

theorem canGoBack_canGoForward_iff:
  assumes "0 < Children_count cs"
    and "0 \<le> i" and "i \<le> Children_count cs - 1"
  shows "(canGoBack i \<longleftrightarrow> i > 0) \<and> (\<not> canGoBack i \<longleftrightarrow> i = 0)
       \<and> (canGoForward (Children_count cs) i \<longleftrightarrow> i < Children_count cs - 1)
       \<and> (\<not> canGoForward (Children_count cs) i \<longleftrightarrow> i = Children_count cs - 1)"
  using assms by (auto simp: canGoBack_def canGoForward_def)

theorem canGoBack_canGoForward_iff_witness:
  "0 < Children_count (children three_pages) \<and> (0::int) \<le> 1
   \<and> 1 \<le> Children_count (children three_pages) - 1
   \<and> canGoBack 1 \<and> canGoForward (Children_count (children three_pages)) 1"
proof -
  have n: "0 < Children_count (children three_pages)"
    by (simp add: Children_count_def three_pages_def)
  have l: "(0::int) \<le> 1" by simp
  have u: "1 \<le> Children_count (children three_pages) - 1"
    by (simp add: Children_count_def three_pages_def)
  have "(1::int) > 0 \<and> 1 < Children_count (children three_pages) - 1"
    by (simp add: Children_count_def three_pages_def)
  with n l u canGoBack_canGoForward_iff [OF n l u] show ?thesis by blast
qed

text \<open>
  C5. With no pages (N = 0) the render returns \<^verbatim>\<open>null\<close>: no page, no controls, and no
  error.
\<close>

theorem no_pages_renders_nothing:
  assumes "Children_count (children props) = 0"
  shows "Guide i18n props currentPage = None"
  using assms by (simp add: Guide_def)

theorem no_pages_renders_nothing_witness:
  "Children_count (children (three_pages\<lparr>children := []\<rparr>)) = 0
   \<and> Guide id (three_pages\<lparr>children := []\<rparr>) 0 = None"
proof -
  have z: "Children_count (children (three_pages\<lparr>children := []\<rparr>)) = 0"
    by (simp add: Children_count_def)
  from z no_pages_renders_nothing [OF z, of id 0] show ?thesis by (intro conjI)
qed

text \<open>
  C6. From a state where both preconditions hold (0 < index + 1 and index + 1 \<le> N - 1),
  goForward followed at once by goBack restores the state that held before.
\<close>

theorem goForward_then_goBack_inverse:
  assumes "0 < page s + 1" and "page s + 1 \<le> Children_count (children props) - 1"
  shows "step props Back (step props Forward s) = s"
  using assms
  by (simp add: goBack_def goForward_def canGoBack_def canGoForward_def setCurrentPage_def)

theorem goForward_then_goBack_inverse_witness:
  "0 < page (\<lparr>page = 1, world = 0\<rparr> :: nat guide_state) + 1
   \<and> page (\<lparr>page = 1, world = 0\<rparr> :: nat guide_state) + 1
       \<le> Children_count (children three_pages) - 1
   \<and> step three_pages Back (step three_pages Forward \<lparr>page = 1, world = 0\<rparr>)
       = \<lparr>page = 1, world = 0\<rparr>"
proof -
  have a: "0 < page (\<lparr>page = 1, world = 0\<rparr> :: nat guide_state) + 1" by simp
  have b: "page (\<lparr>page = 1, world = 0\<rparr> :: nat guide_state) + 1
             \<le> Children_count (children three_pages) - 1"
    by (simp add: Children_count_def three_pages_def)
  from a b goForward_then_goBack_inverse [OF a b] show ?thesis by (intro conjI)
qed

subsection \<open>The rendered view\<close>

text \<open>What a render returns when there are pages: the buttons of the tree, their
  labels and their handlers, read off the JSX.\<close>

lemma Guide_some:
  "0 < Children_count (children props) \<Longrightarrow> \<exists>v. Guide i18n props i = Some v"
  by (simp add: Guide_def Let_def)

lemma Guide_onRequestClose:
  "Guide i18n props i = Some v \<Longrightarrow> onRequestClose v = Some (callback (onFinish props))"
  by (auto simp: Guide_def Let_def split: if_splits)

text \<open>The handlers that \<open>step\<close> runs are the ones the render at that state mounts: the
  two closures on the keyboard shortcuts, and the bare setter on the page control.\<close>

lemma Guide_mounts_handlers:
  assumes "Guide i18n props (page s) = Some v"
  shows "KeyboardShortcuts (page s) (goBack (page s))
           (goForward (Children_count (children props)) (page s)) \<in> set (elements v)"
    and "PageControl (page s) (Children_count (children props)) setCurrentPage
           \<in> set (elements v)"
  using assms by (auto simp: Guide_def Let_def split: if_splits)

lemma Guide_icon_buttons:
  "Guide i18n props i = Some v \<Longrightarrow>
   icon_buttons v =
     (if canGoBack i then [''components-guide__back-button''] else [])
     @ (if canGoForward (Children_count (children props)) i
        then [''components-guide__forward-button''] else [])"
  by (auto simp: Guide_def Let_def icon_buttons_def js_and_def List.map_filter_simps
      split: if_splits)

lemma Guide_finish_buttons:
  "Guide i18n props i = Some v \<Longrightarrow>
   finish_buttons v =
     (if canGoForward (Children_count (children props)) i then []
      else [''components-guide__inline-finish-button'', ''components-guide__finish-button''])"
  by (auto simp: Guide_def Let_def finish_buttons_def js_and_def List.map_filter_simps
      split: if_splits)

lemma Guide_finish_labels:
  "Guide i18n props i = Some v \<Longrightarrow>
   finish_labels v =
     (if canGoForward (Children_count (children props)) i then []
      else [js_or (finishButtonText props) (JString (i18n ''Finish'')),
            js_or (finishButtonText props) (JString (i18n ''Finish''))])"
  by (auto simp: Guide_def Let_def finish_labels_def js_and_def List.map_filter_simps
      split: if_splits)

lemma Guide_finish_handlers:
  "Guide i18n props i = Some v \<Longrightarrow>
   finish_handlers v =
     (if canGoForward (Children_count (children props)) i then []
      else [callback (onFinish props), callback (onFinish props)])"
  by (auto simp: Guide_def Let_def finish_handlers_def js_and_def List.map_filter_simps
      split: if_splits)

text \<open>
  C7. The finish action is available in every state with pages: every render gives the
  modal \<^verbatim>\<open>onFinish\<close> as its \<^verbatim>\<open>onRequestClose\<close>, and every finish button of the render
  has \<^verbatim>\<open>onFinish\<close> as its \<^verbatim>\<open>onClick\<close>. One activation applies the caller's function to the
  world exactly once (with a counter as the world and the increment as \<^verbatim>\<open>onFinish\<close>, the
  count grows by one) and leaves the current index as it was.
\<close>

theorem finish_calls_onFinish_once:
  assumes "0 < Children_count (children props)"
  shows "\<exists>v h. Guide i18n props (page s) = Some v
           \<and> onRequestClose v = Some h \<and> h s = step props Finish s
           \<and> (\<forall>g \<in> set (finish_handlers v). g s = step props Finish s)
           \<and> page (step props Finish s) = page s
           \<and> world (step props Finish s) = onFinish props (world s)"
proof -
  from assms obtain v where v: "Guide i18n props (page s) = Some v"
    using Guide_some by blast
  have "onRequestClose v = Some (callback (onFinish props))"
    using v by (rule Guide_onRequestClose)
  moreover have "\<forall>g \<in> set (finish_handlers v). g s = step props Finish s"
    using Guide_finish_handlers [OF v] by (simp split: if_splits)
  moreover have "page (step props Finish s) = page s"
    and "world (step props Finish s) = onFinish props (world s)"
    by (simp_all add: callback_def)
  ultimately show ?thesis using v by simp
qed

theorem finish_calls_onFinish_once_witness:
  "0 < Children_count (children three_pages)
   \<and> (\<exists>v h. Guide id three_pages 2 = Some v
          \<and> onRequestClose v = Some h
          \<and> h \<lparr>page = 2, world = 0\<rparr> = \<lparr>page = 2, world = 1\<rparr>
          \<and> finish_handlers v \<noteq> []
          \<and> list_all (\<lambda>g. g \<lparr>page = 2, world = 0\<rparr> = \<lparr>page = 2, world = 1\<rparr>)
               (finish_handlers v))"
proof -
  let ?s = "\<lparr>page = 2, world = 0\<rparr> :: nat guide_state"
  have n: "0 < Children_count (children three_pages)"
    by (simp add: Children_count_def three_pages_def)
  have fin: "step three_pages Finish ?s = \<lparr>page = 2, world = 1\<rparr>"
    by (simp add: callback_def three_pages_def)
  from finish_calls_onFinish_once [OF n, of id ?s]
  obtain v h where v: "Guide id three_pages 2 = Some v"
    and h: "onRequestClose v = Some h" "h ?s = step three_pages Finish ?s"
    and g: "\<forall>g \<in> set (finish_handlers v). g ?s = step three_pages Finish ?s"
    by auto
  have "finish_handlers v \<noteq> []"
    using Guide_finish_handlers [OF v]
    by (simp add: canGoForward_def Children_count_def three_pages_def)
  with n v h g fin show ?thesis by (auto simp: list_all_iff)
qed

text \<open>
  C8. For every N > 0 and current index i, the rendered view has the back control exactly
  when canGoBack holds, the forward control exactly when canGoForward holds, and a finish
  control exactly when canGoForward does not hold. In particular, with one page the first
  render has neither the back nor the forward control, and has the finish control.
\<close>

theorem controls_rendered_iff:
  assumes "0 < Children_count (children props)"
  shows "(\<exists>v. Guide i18n props i = Some v
            \<and> (has_back_control v \<longleftrightarrow> canGoBack i)
            \<and> (has_forward_control v \<longleftrightarrow> canGoForward (Children_count (children props)) i)
            \<and> (has_finish_control v \<longleftrightarrow> \<not> canGoForward (Children_count (children props)) i))
       \<and> (Children_count (children props) = 1 \<longrightarrow>
            (\<exists>v. Guide i18n props 0 = Some v
               \<and> \<not> has_back_control v \<and> \<not> has_forward_control v \<and> has_finish_control v))"
proof -
  have view: "(has_back_control v \<longleftrightarrow> canGoBack j)
      \<and> (has_forward_control v \<longleftrightarrow> canGoForward (Children_count (children props)) j)
      \<and> (has_finish_control v \<longleftrightarrow> \<not> canGoForward (Children_count (children props)) j)"
    if "Guide i18n props j = Some v" for j v
    using Guide_icon_buttons [OF that] Guide_finish_buttons [OF that]
    by (simp add: has_back_control_def has_forward_control_def has_finish_control_def)
  from assms obtain v where v: "Guide i18n props i = Some v"
    using Guide_some by blast
  from assms obtain v0 where v0: "Guide i18n props 0 = Some v0"
    using Guide_some by blast
  have "\<not> has_back_control v0 \<and> \<not> has_forward_control v0 \<and> has_finish_control v0"
    if "Children_count (children props) = 1"
    using view [OF v0] that by (simp add: canGoBack_def canGoForward_def)
  with view [OF v] v v0 show ?thesis by blast
qed

theorem controls_rendered_iff_witness:
  "0 < Children_count (children one_page_empty_text)
   \<and> Children_count (children one_page_empty_text) = 1
   \<and> (\<exists>v. Guide id one_page_empty_text 0 = Some v
         \<and> \<not> has_back_control v \<and> \<not> has_forward_control v \<and> has_finish_control v)"
proof -
  have n: "0 < Children_count (children one_page_empty_text)"
    by (simp add: Children_count_def one_page_empty_text_def)
  have one: "Children_count (children one_page_empty_text) = 1"
    by (simp add: Children_count_def one_page_empty_text_def)
  from n one controls_rendered_iff [OF n, of id 0] show ?thesis by blast
qed

text \<open>
  C9, as the spec states it: the rendered view has an inline finish control on every page
  that is not the last one, where canGoForward holds. It fails: the inline button is under
  the guard \<^verbatim>\<open>! canGoForward &&\<close>, and the first of three pages has no finish button at all.
\<close>

theorem inline_finish_on_first_page_counterexample:
  "canGoForward (Children_count (children three_pages)) 0
   \<and> map_option finish_buttons (Guide id three_pages 0) = Some []"
  by (simp add: Guide_def Let_def finish_buttons_def js_and_def List.map_filter_simps
      canGoForward_def canGoBack_def Children_count_def three_pages_def)

text \<open>
  C9, amended: the rendered view has the inline finish control exactly when canGoForward
  does not hold, that is on the last page, where it comes with the footer finish control;
  on a page where canGoForward holds there is no finish control.
\<close>

theorem finish_controls_only_on_last_page:
  assumes "0 < Children_count (children props)"
  shows "\<exists>v. Guide i18n props i = Some v
           \<and> finish_buttons v =
               (if canGoForward (Children_count (children props)) i then []
                else [''components-guide__inline-finish-button'',
                      ''components-guide__finish-button''])"
proof -
  from assms obtain v where v: "Guide i18n props i = Some v"
    using Guide_some by blast
  then show ?thesis using Guide_finish_buttons [OF v] by simp
qed

theorem finish_controls_only_on_last_page_witness:
  "0 < Children_count (children three_pages)
   \<and> map_option finish_buttons (Guide id three_pages 2)
       = Some [''components-guide__inline-finish-button'', ''components-guide__finish-button'']"
proof -
  have n: "0 < Children_count (children three_pages)"
    by (simp add: Children_count_def three_pages_def)
  have last: "\<not> canGoForward (Children_count (children three_pages)) 2"
    by (simp add: canGoForward_def Children_count_def three_pages_def)
  from finish_controls_only_on_last_page [OF n, of id 2] last n show ?thesis by auto
qed

text \<open>
  C10. When \<^verbatim>\<open>finishButtonText\<close> is the empty string or another falsy value, every finish
  control of the rendered view has the localised default \<^verbatim>\<open>__( 'Finish' )\<close> as its label;
  when it is truthy, every finish control has the supplied value. On the last page there
  are two such controls.
\<close>

theorem finish_label_default_when_falsy:
  assumes "0 < Children_count (children props)"
  shows "\<exists>v. Guide i18n props i = Some v
           \<and> (\<not> truthy (finishButtonText props) \<longrightarrow>
                (\<forall>l \<in> set (finish_labels v). l = JString (i18n ''Finish'')))
           \<and> (truthy (finishButtonText props) \<longrightarrow>
                (\<forall>l \<in> set (finish_labels v). l = finishButtonText props))
           \<and> (\<not> canGoForward (Children_count (children props)) i \<longrightarrow>
                length (finish_labels v) = 2)"
proof -
  from assms obtain v where v: "Guide i18n props i = Some v"
    using Guide_some by blast
  then show ?thesis using Guide_finish_labels [OF v] by (simp add: js_or_def)
qed

theorem finish_label_default_when_falsy_witness:
  "0 < Children_count (children one_page_empty_text)
   \<and> \<not> truthy (finishButtonText one_page_empty_text)
   \<and> \<not> canGoForward (Children_count (children one_page_empty_text)) 0
   \<and> map_option finish_labels (Guide id one_page_empty_text 0)
       = Some [JString ''Finish'', JString ''Finish'']
   \<and> 0 < Children_count (children (three_pages\<lparr>finishButtonText := JString ''Done''\<rparr>))
   \<and> truthy (finishButtonText (three_pages\<lparr>finishButtonText := JString ''Done''\<rparr>))
   \<and> \<not> canGoForward
          (Children_count (children (three_pages\<lparr>finishButtonText := JString ''Done''\<rparr>))) 2
   \<and> map_option finish_labels (Guide id (three_pages\<lparr>finishButtonText := JString ''Done''\<rparr>) 2)
       = Some [JString ''Done'', JString ''Done'']"
proof -
  let ?P = "three_pages\<lparr>finishButtonText := JString ''Done''\<rparr>"
  have two: "xs = [a, a]" if "length xs = 2" and "\<forall>l \<in> set xs. l = a"
    for xs :: "js_value list" and a
    using that by (auto simp: numeral_2_eq_2 length_Suc_conv)
  have n1: "0 < Children_count (children one_page_empty_text)"
    by (simp add: Children_count_def one_page_empty_text_def)
  have f1: "\<not> truthy (finishButtonText one_page_empty_text)"
    by (simp add: one_page_empty_text_def)
  have l1: "\<not> canGoForward (Children_count (children one_page_empty_text)) 0"
    by (simp add: canGoForward_def Children_count_def one_page_empty_text_def)
  have n2: "0 < Children_count (children ?P)"
    by (simp add: Children_count_def three_pages_def)
  have t2: "truthy (finishButtonText ?P)" by simp
  have l2: "\<not> canGoForward (Children_count (children ?P)) 2"
    by (simp add: canGoForward_def Children_count_def three_pages_def)
  from finish_label_default_when_falsy [OF n1, of id 0] f1 l1
  have r1: "map_option finish_labels (Guide id one_page_empty_text 0)
              = Some [JString ''Finish'', JString ''Finish'']"
    by (auto intro: two)
  from finish_label_default_when_falsy [OF n2, of id 2] t2 l2
  have r2: "map_option finish_labels (Guide id ?P 2) = Some [JString ''Done'', JString ''Done'']"
    by (auto intro: two)
  from n1 f1 l1 r1 n2 t2 l2 r2 show ?thesis by (intro conjI)
qed

end
